theory Spec2Isabelle
  imports Complex_Main "HOL-Library.Word" "HOL-Library.Multiset"
begin

unbundle bit_operations_syntax

section \<open>The xorshift64* generator of generate\_data.py\<close>

text \<open>
  Python integers are unbounded, so the generator state is an \<open>int\<close>. On \<open>int\<close>,
  \<open>drop_bit\<close> is Python's \<open>>>\<close> (floor shift), \<open>push_bit\<close> is \<open><<\<close>, and
  \<open>XOR\<close>, \<open>AND\<close> act on the infinite two's complement, as Python's operators do.
\<close>

datatype py_error = IndexError | ZeroDivisionError

record XorShift64Star =
  state :: int

definition MASK64 :: int where
  "MASK64 = 0xFFFFFFFFFFFFFFFF"

definition STAR :: int where
  "STAR = 0x2545F4914F6CDD1D"

text \<open>\<open>__init__\<close>: \<open>self.state = seed if seed != 0 else 1\<close>.\<close>

definition init :: "int \<Rightarrow> XorShift64Star" where
  "init seed = \<lparr>state = (if seed \<noteq> 0 then seed else 1)\<rparr>"

text \<open>
  The three xorshift lines of \<open>next_u64\<close>, then the single mask
  \<open>x &= 0xFFFFFFFFFFFFFFFF\<close> that follows them.
\<close>

definition advance :: "int \<Rightarrow> int" where
  "advance x0 =
     (let x1 = x0 XOR drop_bit 12 x0;
          x2 = x1 XOR push_bit 25 x1;
          x3 = x2 XOR drop_bit 27 x2
      in x3 AND MASK64)"

text \<open>\<open>next_u64\<close> returns the scrambled output and the generator with its new state.\<close>

definition next_u64 :: "XorShift64Star \<Rightarrow> int \<times> XorShift64Star" where
  "next_u64 g =
     (let x = advance (state g)
      in ((x * STAR) AND MASK64, g\<lparr>state := x\<rparr>))"

text \<open>The generator after \<open>k\<close> successive calls of \<open>next_u64\<close>.\<close>

fun after_calls :: "nat \<Rightarrow> XorShift64Star \<Rightarrow> XorShift64Star" where
  "after_calls 0 g = g"
| "after_calls (Suc k) g = after_calls k (snd (next_u64 g))"

text \<open>\<open>next_usize\<close>: the early return leaves the generator untouched.\<close>

definition next_usize :: "XorShift64Star \<Rightarrow> int \<Rightarrow> int \<times> XorShift64Star" where
  "next_usize g bound =
     (if bound \<le> 1 then (0, g)
      else (let (r, g') = next_u64 g in (r mod bound, g')))"

text \<open>
  \<open>next_f64\<close>: \<open>float(u >> 11) * (1.0 / float(1 << 53))\<close>. The integer \<open>u >> 11\<close> is
  below \<open>2^53\<close>, so its conversion to a double is exact, \<open>1 / 2^53\<close> is a power of two,
  and the product only changes the exponent: the double returned is exactly the
  rational \<open>(u >> 11) / 2^53\<close>, which is what the model returns.
\<close>

definition next_f64 :: "XorShift64Star \<Rightarrow> real \<times> XorShift64Star" where
  "next_f64 g =
     (let (u, g') = next_u64 g
      in (real_of_int (drop_bit 11 u) * (1 / real_of_int (push_bit 53 1)), g'))"

text \<open>\<open>rand_char\<close>: \<open>chr(ord('a') + (self.next_u64() % 26))\<close>.\<close>

definition rand_char :: "XorShift64Star \<Rightarrow> char \<times> XorShift64Star" where
  "rand_char g =
     (let (u, g') = next_u64 g
      in (char_of (of_char CHR ''a'' + u mod 26 :: int), g'))"

text \<open>The specification's recurrence: every step reduced modulo \<open>2^64\<close>.\<close>

definition spec_advance :: "int \<Rightarrow> int" where
  "spec_advance x0 =
     (let x1 = (x0 XOR drop_bit 12 x0) mod 2 ^ 64;
          x2 = (x1 XOR (push_bit 25 x1 mod 2 ^ 64)) mod 2 ^ 64;
          x3 = (x2 XOR drop_bit 27 x2) mod 2 ^ 64
      in x3)"

definition spec_next_u64 :: "XorShift64Star \<Rightarrow> int \<times> XorShift64Star" where
  "spec_next_u64 g =
     (let x = spec_advance (state g)
      in ((x * STAR) mod 2 ^ 64, g\<lparr>state := x\<rparr>))"

text \<open>
  A left inverse of \<open>advance\<close> on 64-bit values, used to show that the state never
  becomes 0. On such values \<open>advance\<close> is linear over bitwise XOR; entry \<open>j\<close> of the table
  is the 64-bit value that \<open>advance\<close> sends to \<open>2^j\<close>, and \<open>unmix y\<close> is the XOR of the
  entries at the set bits of \<open>y\<close>.
\<close>

definition unmix_table :: "int list" where
  "unmix_table =
     [0x3C3A243BD872BB16, 0x78744877B0E5762D, 0xF0E890EF61CAEC5A, 0xE4C170F9F1E6FA83,
      0xCC92B0D4D1BED731, 0x9C35308E910E8C54, 0x01401401C81C8189, 0x0280280390390312,
      0x393A743CF800BD32, 0x7274E879F0017A65, 0xE4E9D0F3E002F4CB, 0xCCC3F0C0F276CBA0,
      0x9C97B0A6D69EB577, 0x3C3F306A9F4E48D8, 0x787E60D53E9C91B1, 0xF0FCC1AA7D392362,
      0xE4E9D273C80164F2, 0xCCC3F5C0A271EBD2, 0x9C97BAA67690F593, 0x3C3F246BDF52C910,
      0x787E48D7BEA59221, 0xF0FC91AF7D4B2442, 0xE4E97279C8E56AB2, 0xCCC2B5D4A3B9F753,
      0x9C953A8E7500CC90, 0x3C3A243BD872BB17, 0x78744877B0E5762F, 0xCCD2B4D4B9B85748,
      0x9CB5388E41038CA6, 0x3C7A203BB0743B7B, 0x78F4407760E876F7, 0xCDD2A4D519A256F8,
      0x9EB5188D01378FC6, 0x387A603D301C3DBB, 0x70F4C07A60387B77, 0xDDD3A4CF18024DF9,
      0xBEB718B90277B9C5, 0x787E6055369C51BD, 0xF0FCC0AA6D38A37A, 0xE4E9D073E80264C2,
      0xCCC3F1C0E277EBB2, 0x9C97B2A6F69CF553, 0x3C3F346ADF4AC890, 0x787E68D5BE959121,
      0xF0FCD1AB7D2B2242, 0xE4E9F271C82566B2, 0xCCC3B5C4A239EF52, 0x9C973AAE7600FC93,
      0x3C3E247BDE72DB11, 0x787C48F7BCE5B623, 0xF0F891EF79CB6C46, 0xE4E172F9C1E5FABB,
      0xCCD2B4D4B1B8D741, 0x9CB5388E51028CB4, 0x0040040048048049, 0x0080080090090092,
      0x3D3A343AF860BA32, 0x7A746875F0C17465, 0xF4E8D0EBE182E8CA, 0xECC1F0F0F176F3A3,
      0xDC93B0C6D09EC570, 0xBC3730AA934EA8D6, 0x41441449CC9CC88D, 0x828828939939911B]"

fun unmix_from :: "int list \<Rightarrow> nat \<Rightarrow> int \<Rightarrow> int" where
  "unmix_from [] j y = 0"
| "unmix_from (c # cs) j y = (if bit y j then c else 0) XOR unmix_from cs (Suc j) y"

definition unmix :: "int \<Rightarrow> int" where
  "unmix y = unmix_from unmix_table 0 y"

section \<open>Python lists\<close>

text \<open>
  A Python index may be negative (counted from the end); outside the list it raises
  \<open>IndexError\<close>. \<open>py_index len i\<close> is the position meant, if there is one.
\<close>

definition py_index :: "nat \<Rightarrow> int \<Rightarrow> nat option" where
  "py_index len i =
     (if 0 \<le> i \<and> i < int len then Some (nat i)
      else if i < 0 \<and> 0 \<le> int len + i then Some (nat (int len + i))
      else None)"

definition py_get :: "'a list \<Rightarrow> int \<Rightarrow> py_error + 'a" where
  "py_get xs i =
     (case py_index (length xs) i of None \<Rightarrow> Inl IndexError | Some p \<Rightarrow> Inr (xs ! p))"

text \<open>\<open>list(range(n))\<close>: empty when \<open>n\<close> is not positive.\<close>

definition py_range :: "int \<Rightarrow> int list" where
  "py_range m = map int [0..<nat m]"

text \<open>
  \<open>array[i], array[j] = array[j], array[i]\<close>: the right-hand side reads \<open>array[j]\<close>
  then \<open>array[i]\<close>, then position \<open>i\<close> is written, then position \<open>j\<close>.
\<close>

definition swap :: "'a list \<Rightarrow> int \<Rightarrow> int \<Rightarrow> py_error + 'a list" where
  "swap array i j =
     (case py_index (length array) j of
        None \<Rightarrow> Inl IndexError
      | Some p_j \<Rightarrow>
         (case py_index (length array) i of
            None \<Rightarrow> Inl IndexError
          | Some p_i \<Rightarrow> Inr ((array[p_i := array ! p_j])[p_j := array ! p_i])))"

section \<open>The Fisher-Yates shuffle\<close>

text \<open>
  \<open>for i in range(len(array) - 1, 0, -1)\<close>: \<open>shuffle_from k\<close> runs the iterations
  \<open>i = k, k - 1, ..., 1\<close>. Besides the array and the generator it returns the list of the
  bounds it passed to \<open>next_usize\<close>, one entry per call, in call order (a log kept
  by the model only, to count the calls).
\<close>

fun shuffle_from ::
  "nat \<Rightarrow> XorShift64Star \<Rightarrow> 'a list \<Rightarrow> py_error + ('a list \<times> XorShift64Star \<times> int list)" where
  "shuffle_from 0 g array = Inr (array, g, [])"
| "shuffle_from (Suc k) g array =
     (let i = int (Suc k);
          (j, g') = next_usize g (i + 1)
      in case swap array i j of
           Inl e \<Rightarrow> Inl e
         | Inr array' \<Rightarrow>
            (case shuffle_from k g' array' of
               Inl e \<Rightarrow> Inl e
             | Inr (res, g'', calls) \<Rightarrow> Inr (res, g'', (i + 1) # calls)))"

text \<open>\<open>range(len(array) - 1, 0, -1)\<close> is empty when \<open>len(array) - 1\<close> is below 1.\<close>

definition shuffle ::
  "XorShift64Star \<Rightarrow> 'a list \<Rightarrow> py_error + ('a list \<times> XorShift64Star \<times> int list)" where
  "shuffle g array = shuffle_from (nat (int (length array) - 1)) g array"

section \<open>The workload builder\<close>

text \<open>
  The module constants of generate\_data.py, gathered in a record so that the builder
  can be stated for any values of them; \<open>source_config\<close> holds the values of the file.
\<close>

record config =
  N :: int
  SEED :: int
  UPDATE_COUNT :: int
  REMOVE_COUNT :: int
  REMOVE_HITS :: int
  REMOVE_MISSES :: int
  SEARCH_COUNT :: int
  SEARCH_HIT_RATE :: real

definition source_config :: config where
  "source_config =
     \<lparr>N = 1000000, SEED = 0xDEADBEEFCAFEBABE, UPDATE_COUNT = 500000,
      REMOVE_COUNT = 750000, REMOVE_HITS = 500000, REMOVE_MISSES = 250000,
      SEARCH_COUNT = 1000000, SEARCH_HIT_RATE = 1 / 2\<rparr>"

text \<open>
  The dictionary returned by \<open>generate_data\<close>, one field per key; the keys \<open>'n'\<close>,
  \<open>'updates'\<close>, \<open>'removes'\<close> and \<open>'searches'\<close> are the fields \<open>wl_n\<close>, \<open>wl_updates\<close>,
  \<open>wl_removes\<close> and \<open>wl_searches\<close>.
\<close>

record workload =
  insert_keys :: "int list"
  insert_data :: "char list"
  update_indices :: "int list"
  update_data :: "char list"
  remove_is_hit :: "bool list"
  remove_indices :: "int list"
  remove_miss_keys :: "int list"
  search_is_hit :: "bool list"
  search_indices :: "int list"
  search_miss_keys :: "int list"
  wl_n :: int
  wl_updates :: int
  wl_removes :: int
  wl_searches :: int

text \<open>\<open>[f() for _ in range(k)]\<close> with a generator method \<open>f\<close>.\<close>

fun draws ::
  "(XorShift64Star \<Rightarrow> 'a \<times> XorShift64Star) \<Rightarrow> nat \<Rightarrow> XorShift64Star \<Rightarrow> 'a list \<times> XorShift64Star" where
  "draws f 0 g = ([], g)"
| "draws f (Suc k) g =
     (let (a, g1) = f g;
          (as, g2) = draws f k g1
      in (a # as, g2))"

text \<open>\<open>[insert_keys[order[i]] for i in range(N)]\<close>: either subscript may raise.\<close>

fun reindex :: "int list \<Rightarrow> int list \<Rightarrow> int list \<Rightarrow> py_error + int list" where
  "reindex keys order [] = Inr []"
| "reindex keys order (i # is) =
     (case py_get order i of
        Inl e \<Rightarrow> Inl e
      | Inr oi \<Rightarrow>
         (case py_get keys oi of
            Inl e \<Rightarrow> Inl e
          | Inr key \<Rightarrow>
             (case reindex keys order is of
                Inl e \<Rightarrow> Inl e
              | Inr rest \<Rightarrow> Inr (key # rest))))"

text \<open>
  \<open>miss_key = N + (rng.next_u64() % N) + 1\<close>: the draw comes first, then \<open>%\<close> raises
  \<open>ZeroDivisionError\<close> when \<open>N\<close> is 0.
\<close>

definition miss_key :: "int \<Rightarrow> XorShift64Star \<Rightarrow> py_error + (int \<times> XorShift64Star)" where
  "miss_key nn g =
     (let (u, g') = next_u64 g
      in if nn = 0 then Inl ZeroDivisionError else Inr (nn + u mod nn + 1, g'))"

type_synonym series = "bool list \<times> int list \<times> int list"

text \<open>The loop \<open>for _ in range(REMOVE_HITS)\<close>, appending to the three remove arrays.\<close>

fun remove_hits_loop ::
  "nat \<Rightarrow> int \<Rightarrow> XorShift64Star \<Rightarrow> series \<Rightarrow> series \<times> XorShift64Star" where
  "remove_hits_loop 0 nn g acc = (acc, g)"
| "remove_hits_loop (Suc k) nn g (is_hit, indices, miss_keys) =
     (let (r, g') = next_usize g nn
      in remove_hits_loop k nn g' (is_hit @ [True], indices @ [r], miss_keys @ [0]))"

text \<open>The loop \<open>for _ in range(REMOVE_MISSES)\<close>.\<close>

fun remove_misses_loop ::
  "nat \<Rightarrow> int \<Rightarrow> XorShift64Star \<Rightarrow> series \<Rightarrow> py_error + (series \<times> XorShift64Star)" where
  "remove_misses_loop 0 nn g acc = Inr (acc, g)"
| "remove_misses_loop (Suc k) nn g (is_hit, indices, miss_keys) =
     (case miss_key nn g of
        Inl e \<Rightarrow> Inl e
      | Inr (mk, g') \<Rightarrow>
         remove_misses_loop k nn g' (is_hit @ [False], indices @ [0], miss_keys @ [mk]))"

text \<open>The loop \<open>for _ in range(SEARCH_COUNT)\<close>.\<close>

fun search_loop ::
  "nat \<Rightarrow> int \<Rightarrow> real \<Rightarrow> XorShift64Star \<Rightarrow> series \<Rightarrow> py_error + (series \<times> XorShift64Star)" where
  "search_loop 0 nn rate g acc = Inr (acc, g)"
| "search_loop (Suc k) nn rate g (is_hit, indices, miss_keys) =
     (let (f, g1) = next_f64 g;
          hit = (f < rate)
      in if hit then
           (let (r, g2) = next_usize g1 nn
            in search_loop k nn rate g2 (is_hit @ [hit], indices @ [r], miss_keys @ [0]))
         else
           (case miss_key nn g1 of
              Inl e \<Rightarrow> Inl e
            | Inr (mk, g2) \<Rightarrow>
               search_loop k nn rate g2 (is_hit @ [hit], indices @ [0], miss_keys @ [mk])))"

text \<open>
  The generator after \<open>k\<close> successive calls of \<open>next_usize(nn)\<close>, and after \<open>k\<close>
  iterations of the search loop (one \<open>next_f64\<close> draw, then \<open>next_usize\<close> on a hit and
  \<open>next_u64\<close> on a miss).
\<close>

fun after_usize :: "nat \<Rightarrow> int \<Rightarrow> XorShift64Star \<Rightarrow> XorShift64Star" where
  "after_usize 0 nn g = g"
| "after_usize (Suc k) nn g = after_usize k nn (snd (next_usize g nn))"

definition search_iteration :: "int \<Rightarrow> real \<Rightarrow> XorShift64Star \<Rightarrow> XorShift64Star" where
  "search_iteration nn rate g =
     (let (f, g1) = next_f64 g
      in if f < rate then snd (next_usize g1 nn) else snd (next_u64 g1))"

text \<open>
  What one iteration of the search loop, started with generator \<open>g\<close>, appends to
  \<open>search_is_hit\<close>, \<open>search_indices\<close> and \<open>search_miss_keys\<close> when \<open>N\<close> is not 0.
\<close>

definition search_entry :: "int \<Rightarrow> real \<Rightarrow> XorShift64Star \<Rightarrow> bool \<times> int \<times> int" where
  "search_entry nn rate g =
     (let (f, g1) = next_f64 g
      in if f < rate then (True, fst (next_usize g1 nn), 0)
         else (False, 0, nn + fst (next_u64 g1) mod nn + 1))"

fun after_searches :: "nat \<Rightarrow> int \<Rightarrow> real \<Rightarrow> XorShift64Star \<Rightarrow> XorShift64Star" where
  "after_searches 0 nn rate g = g"
| "after_searches (Suc k) nn rate g = after_searches k nn rate (search_iteration nn rate g)"

text \<open>
  The generator as it stands when the remove section of \<open>generate_data\<close> starts
  (after the insert data, the shuffle, the update indices and the update data), and when
  the search section starts.
\<close>

definition rng_at_shuffle :: "config \<Rightarrow> XorShift64Star" where
  "rng_at_shuffle cfg = snd (draws rand_char (nat (N cfg)) (init (SEED cfg)))"

definition rng_at_updates :: "config \<Rightarrow> XorShift64Star" where
  "rng_at_updates cfg =
     (case shuffle (rng_at_shuffle cfg) (py_range (N cfg)) of
        Inl e \<Rightarrow> rng_at_shuffle cfg
      | Inr (order, g, calls) \<Rightarrow> g)"

definition rng_at_removes :: "config \<Rightarrow> XorShift64Star" where
  "rng_at_removes cfg =
     snd (draws rand_char (nat (UPDATE_COUNT cfg))
       (snd (draws (\<lambda>g. next_usize g (N cfg)) (nat (UPDATE_COUNT cfg)) (rng_at_updates cfg))))"

definition rng_at_searches :: "config \<Rightarrow> XorShift64Star" where
  "rng_at_searches cfg =
     (case remove_misses_loop (nat (REMOVE_MISSES cfg)) (N cfg)
             (snd (remove_hits_loop (nat (REMOVE_HITS cfg)) (N cfg) (rng_at_removes cfg) ([], [], [])))
             (fst (remove_hits_loop (nat (REMOVE_HITS cfg)) (N cfg) (rng_at_removes cfg) ([], [], []))) of
        Inl e \<Rightarrow> rng_at_removes cfg
      | Inr (acc, g) \<Rightarrow> g)"

text \<open>\<open>generate_data\<close>, with the module constants as its argument.\<close>

definition generate_data :: "config \<Rightarrow> py_error + workload" where
  "generate_data cfg =
     (let rng0 = init (SEED cfg);
          keys = py_range (N cfg);
          (data, rng1) = draws rand_char (nat (N cfg)) rng0
      in case shuffle rng1 (py_range (N cfg)) of
           Inl e \<Rightarrow> Inl e
         | Inr (order, rng2, calls) \<Rightarrow>
            (case reindex keys order (py_range (N cfg)) of
               Inl e \<Rightarrow> Inl e
             | Inr shuffled_keys \<Rightarrow>
                (let (upd_indices, rng3) =
                       draws (\<lambda>g. next_usize g (N cfg)) (nat (UPDATE_COUNT cfg)) rng2;
                     (upd_data, rng4) = draws rand_char (nat (UPDATE_COUNT cfg)) rng3;
                     (hits, rng5) =
                       remove_hits_loop (nat (REMOVE_HITS cfg)) (N cfg) rng4 ([], [], [])
                 in case remove_misses_loop (nat (REMOVE_MISSES cfg)) (N cfg) rng5 hits of
                      Inl e \<Rightarrow> Inl e
                    | Inr ((rem_is_hit, rem_indices, rem_miss_keys), rng6) \<Rightarrow>
                       (case search_loop (nat (SEARCH_COUNT cfg)) (N cfg)
                               (SEARCH_HIT_RATE cfg) rng6 ([], [], []) of
                          Inl e \<Rightarrow> Inl e
                        | Inr ((sea_is_hit, sea_indices, sea_miss_keys), rng7) \<Rightarrow>
                           Inr \<lparr>insert_keys = shuffled_keys,
                                insert_data = data,
                                update_indices = upd_indices,
                                update_data = upd_data,
                                remove_is_hit = rem_is_hit,
                                remove_indices = rem_indices,
                                remove_miss_keys = rem_miss_keys,
                                search_is_hit = sea_is_hit,
                                search_indices = sea_indices,
                                search_miss_keys = sea_miss_keys,
                                wl_n = N cfg,
                                wl_updates = UPDATE_COUNT cfg,
                                wl_removes = REMOVE_COUNT cfg,
                                wl_searches = SEARCH_COUNT cfg\<rparr>))))"

section \<open>Properties of the generator\<close>

lemma and_MASK64: "x AND MASK64 = x mod 2 ^ 64"
proof -
  have "MASK64 = mask 64"
    by (simp add: MASK64_def mask_eq_exp_minus_1)
  then have "x AND MASK64 = take_bit 64 x"
    by (simp add: take_bit_eq_mask)
  then show ?thesis
    by (simp add: take_bit_eq_mod)
qed

text \<open>
  C1. \<open>next_u64\<close> is claimed to replace the state by the xorshift64 recurrence with
  every step reduced modulo \<open>2^64\<close>, and to return the new state times
  \<open>0x2545F4914F6CDD1D\<close> modulo \<open>2^64\<close>. The code masks once, after the third step,
  so the bits that \<open>x << 25\<close> pushes above bit 63 are still there when \<open>x >> 27\<close>
  is taken, and come back down into bits 37 to 61. At the seed of the file,
  \<open>0xDEADBEEFCAFEBABE\<close>, the first call of the code and the first call of the
  recurrence as specified give different states and different outputs.
\<close>

theorem next_u64_mask_after_shifts:
  "next_u64 \<lparr>state = 0xDEADBEEFCAFEBABE\<rparr> =
     (12943654015325602036, \<lparr>state = 9313519931457279620\<rparr>) \<and>
   spec_next_u64 \<lparr>state = 0xDEADBEEFCAFEBABE\<rparr> =
     (9018836209304764660, \<lparr>state = 13179872306182755972\<rparr>)"
  by (simp add: next_u64_def advance_def spec_next_u64_def spec_advance_def
      MASK64_def STAR_def Let_def)

text \<open>
  The state update of the code is linear over XOR and \<open>unmix\<close> undoes it on every
  power of two below \<open>2^64\<close>, hence on every 64-bit value: it sends no nonzero 64-bit
  state to 0.
\<close>

lemma advance_xor: "advance (x XOR y) = advance x XOR advance y"
  by (simp add: advance_def Let_def drop_bit_xor push_bit_xor bit.conj_xor_distrib2
      xor.assoc xor.left_commute)

lemma unmix_from_xor: "unmix_from cs j (y XOR z) = unmix_from cs j y XOR unmix_from cs j z"
  by (induction cs arbitrary: j) (simp_all add: bit_xor_iff xor.assoc xor.left_commute)

lemma unmix_xor: "unmix (y XOR z) = unmix y XOR unmix z"
  by (simp add: unmix_def unmix_from_xor)

lemma unmix_from_zero: "unmix_from cs j 0 = 0"
  by (induction cs arbitrary: j) simp_all

lemma advance_zero: "advance 0 = 0"
  by (simp add: advance_def)

lemma unmix_basis: "\<forall>i \<in> set [0..<64]. unmix (advance (2 ^ i)) = 2 ^ i"
  by code_simp

lemma take_bit_Suc_xor:
  "take_bit (Suc n) (x::int) = take_bit n x XOR (if bit x n then 2 ^ n else 0)"
  by (rule bit_eqI) (auto simp add: bit_take_bit_iff bit_xor_iff bit_exp_iff less_Suc_eq)

lemma unmix_advance_take_bit:
  "n \<le> 64 \<Longrightarrow> unmix (advance (take_bit n x)) = take_bit n x"
proof (induction n)
  case 0
  then show ?case by (simp add: advance_zero unmix_def unmix_from_zero)
next
  case (Suc n)
  then have ih: "unmix (advance (take_bit n x)) = take_bit n x" by simp
  from Suc.prems have "n \<in> set [0..<64]" by simp
  with unmix_basis have b: "unmix (advance (2 ^ n)) = 2 ^ n" by blast
  show ?case
  proof (cases "bit x n")
    case True
    then have "take_bit (Suc n) x = take_bit n x XOR 2 ^ n"
      by (simp add: take_bit_Suc_xor)
    then show ?thesis by (simp add: advance_xor unmix_xor ih b)
  next
    case False
    then have "take_bit (Suc n) x = take_bit n x"
      by (simp add: take_bit_Suc_xor)
    then show ?thesis by (simp add: ih)
  qed
qed

lemma unmix_advance:
  assumes "0 \<le> x" and "x < 2 ^ 64"
  shows "unmix (advance x) = x"
proof -
  have "take_bit 64 x = x" using assms by (simp add: take_bit_int_eq_self)
  with unmix_advance_take_bit [of 64 x] show ?thesis by simp
qed

lemma advance_range: "0 \<le> advance x \<and> advance x < 2 ^ 64"
proof -
  have "advance x = (let x1 = x XOR drop_bit 12 x; x2 = x1 XOR push_bit 25 x1;
                         x3 = x2 XOR drop_bit 27 x2 in x3) mod 2 ^ 64"
    by (simp add: advance_def Let_def and_MASK64)
  then show ?thesis by simp
qed

lemma advance_nonzero:
  assumes "0 < x" and "x < 2 ^ 64"
  shows "0 < advance x"
proof -
  have "advance x \<noteq> 0"
  proof
    assume "advance x = 0"
    then have "unmix (advance x) = 0" by (simp add: unmix_def unmix_from_zero)
    with unmix_advance [of x] assms show False by simp
  qed
  with advance_range [of x] show ?thesis by simp
qed

lemma state_next_u64: "state (snd (next_u64 g)) = advance (state g)"
  by (simp add: next_u64_def Let_def)

lemma after_calls_nonzero:
  "0 < state g \<Longrightarrow> state g < 2 ^ 64 \<Longrightarrow>
   0 < state (after_calls k g) \<and> state (after_calls k g) < 2 ^ 64"
proof (induction k arbitrary: g)
  case 0
  then show ?case by simp
next
  case (Suc k)
  have "0 < state (snd (next_u64 g))" "state (snd (next_u64 g)) < 2 ^ 64"
    using advance_nonzero [of "state g"] advance_range [of "state g"] Suc.prems
    by (simp_all add: state_next_u64)
  from Suc.IH [OF this] show ?case by simp
qed

text \<open>
  C2. Construction with seed 0 stores 1, so a generator built from seed 0 gives the same
  outputs as one built from seed 1; construction with a nonzero seed stores the seed
  itself; and for a nonzero 64-bit seed the state is nonzero after any number \<open>k\<close> of
  \<open>next_u64\<close> calls.
\<close>

theorem state_never_zero:
  "init 0 = \<lparr>state = 1\<rparr> \<and>
   draws next_u64 k (init 0) = draws next_u64 k (init 1) \<and>
   (seed \<noteq> 0 \<longrightarrow> init seed = \<lparr>state = seed\<rparr>) \<and>
   (0 < seed \<and> seed < 2 ^ 64 \<longrightarrow> state (after_calls k (init seed)) \<noteq> 0)"
proof -
  have "state (after_calls k (init seed)) \<noteq> 0" if "0 < seed" "seed < 2 ^ 64"
    using after_calls_nonzero [of "init seed" k] that by (simp add: init_def)
  then show ?thesis by (simp add: init_def)
qed

theorem state_never_zero_witness:
  "init 0 = \<lparr>state = 1\<rparr> \<and>
   draws next_u64 2 (init 0) = draws next_u64 2 (init 1) \<and>
   init 0xDEADBEEFCAFEBABE = \<lparr>state = 0xDEADBEEFCAFEBABE\<rparr> \<and>
   state (after_calls 2 (init 0xDEADBEEFCAFEBABE)) \<noteq> 0"
proof -
  have h: "(0xDEADBEEFCAFEBABE :: int) \<noteq> 0"
    "0 < (0xDEADBEEFCAFEBABE :: int) \<and> (0xDEADBEEFCAFEBABE :: int) < 2 ^ 64"
    by simp_all
  from state_never_zero [of 2 "0xDEADBEEFCAFEBABE"] h show ?thesis by blast
qed

text \<open>
  C3. For a bound of at most 1, \<open>next_usize\<close> returns 0 and the generator is the one
  it was given; for a bound above 1 it returns \<open>next_u64() % bound\<close>, which lies in
  \<open>[0, bound)\<close>, and the generator has advanced by that one call of \<open>next_u64\<close>.
\<close>

theorem next_usize_spec:
  "(bound \<le> 1 \<longrightarrow> next_usize g bound = (0, g)) \<and>
   (1 < bound \<longrightarrow>
      next_usize g bound = (fst (next_u64 g) mod bound, snd (next_u64 g)) \<and>
      0 \<le> fst (next_usize g bound) \<and> fst (next_usize g bound) < bound)"
  by (simp add: next_usize_def split_beta)

theorem next_usize_spec_witness:
  "next_usize \<lparr>state = 5\<rparr> 1 = (0, \<lparr>state = 5\<rparr>) \<and>
   next_usize \<lparr>state = 5\<rparr> 0 = (0, \<lparr>state = 5\<rparr>) \<and>
   next_usize \<lparr>state = 5\<rparr> 10 = (2, \<lparr>state = 167772164\<rparr>) \<and>
   fst (next_u64 \<lparr>state = 5\<rparr>) mod 10 = 2 \<and>
   snd (next_u64 \<lparr>state = 5\<rparr>) = \<lparr>state = 167772164\<rparr>"
  using next_usize_spec [of 1 "\<lparr>state = 5\<rparr>"] next_usize_spec [of 0 "\<lparr>state = 5\<rparr>"]
    next_usize_spec [of 10 "\<lparr>state = 5\<rparr>"]
  by (simp add: next_u64_def advance_def MASK64_def STAR_def Let_def)

section \<open>Properties of the shuffle\<close>

lemma py_index_in_range:
  "0 \<le> i \<Longrightarrow> i < int len \<Longrightarrow> py_index len i = Some (nat i)"
  by (simp add: py_index_def)

lemma swap_in_range:
  assumes "0 \<le> i" "i < int (length array)" "0 \<le> j" "j < int (length array)"
  shows "\<exists>array'. swap array i j = Inr array' \<and> mset array' = mset array \<and>
           length array' = length array"
proof -
  have "swap array i j = Inr ((array[nat i := array ! nat j])[nat j := array ! nat i])"
    using assms by (simp add: swap_def py_index_in_range)
  moreover have "mset ((array[nat i := array ! nat j])[nat j := array ! nat i]) = mset array"
    using assms by (simp add: mset_swap)
  ultimately show ?thesis by simp
qed

lemma next_usize_advances:
  "1 < bound \<Longrightarrow> snd (next_usize g bound) = snd (next_u64 g)"
  by (simp add: next_usize_def split_beta)

lemma next_usize_range:
  "1 < bound \<Longrightarrow> 0 \<le> fst (next_usize g bound) \<and> fst (next_usize g bound) < bound"
  by (simp add: next_usize_def split_beta)

text \<open>
  The loop started at \<open>i = k\<close> on an array longer than \<open>k\<close>: every drawn \<open>j\<close> is at
  most \<open>i\<close>, so no subscript is out of range, each iteration swaps two positions, and
  each iteration advances the generator once.
\<close>

lemma shuffle_from_ok:
  "k < length array \<Longrightarrow>
   \<exists>res. shuffle_from k g array =
           Inr (res, after_calls k g, map (\<lambda>i. int i + 1) (rev [1..<Suc k])) \<and>
         mset res = mset array \<and> length res = length array"
proof (induction k arbitrary: g array)
  case 0
  then show ?case by simp
next
  case (Suc k)
  let ?b = "int (Suc k) + 1"
  obtain j g1 where draw: "next_usize g ?b = (j, g1)"
    by (cases "next_usize g ?b") auto
  have b: "1 < ?b" by simp
  have j: "0 \<le> j" "j < ?b"
    using next_usize_range [OF b, of g] draw by simp_all
  have g1: "g1 = snd (next_u64 g)"
    using next_usize_advances [OF b, of g] draw by simp
  have "j < int (length array)" using j Suc.prems by simp
  then obtain array' where sw: "swap array (int (Suc k)) j = Inr array'"
      and ms: "mset array' = mset array" and len: "length array' = length array"
    using swap_in_range [of "int (Suc k)" array j] j Suc.prems by auto
  have "k < length array'" using Suc.prems len by simp
  from Suc.IH [OF this, of g1] obtain res where
    rec: "shuffle_from k g1 array' =
            Inr (res, after_calls k g1, map (\<lambda>i. int i + 1) (rev [1..<Suc k]))"
    and res: "mset res = mset array'" "length res = length array'"
    by blast
  have "shuffle_from (Suc k) g array =
          Inr (res, after_calls k g1, ?b # map (\<lambda>i. int i + 1) (rev [1..<Suc k]))"
    using draw sw rec by (simp del: upt_Suc)
  moreover have "after_calls k g1 = after_calls (Suc k) g"
    using g1 by simp
  moreover have "?b # map (\<lambda>i. int i + 1) (rev [1..<Suc k]) =
      map (\<lambda>i. int i + 1) (rev [1..<Suc (Suc k)])"
    by simp
  ultimately show ?case using res ms len by (simp del: upt_Suc)
qed

lemma shuffle_ok:
  "\<exists>res. shuffle g array =
           Inr (res, after_calls (length array - 1) g,
                map (\<lambda>i. int i + 1) (rev [1..<length array])) \<and>
         mset res = mset array \<and> length res = length array"
proof (cases array)
  case Nil
  then show ?thesis by (simp add: shuffle_def)
next
  case (Cons a as)
  then have "length array - 1 < length array" by simp
  from shuffle_from_ok [OF this, of g] Cons show ?thesis
    by (auto simp add: shuffle_def simp del: upt_Suc)
qed

text \<open>
  C4. On an array of length \<open>L\<close>, \<open>shuffle\<close> never raises; it runs \<open>i\<close> from \<open>L - 1\<close>
  down to 1 and calls \<open>next_usize(i + 1)\<close> at each step, so the bounds it passes are
  \<open>L, L - 1, ..., 2\<close> in this order: \<open>L - 1\<close> calls (none for an array of length 0 or 1,
  where the range is empty), each of which advances the generator once. The array
  returned holds the same elements as the input, with the same multiplicities.
\<close>

theorem shuffle_fisher_yates:
  "\<exists>res calls.
     shuffle g array = Inr (res, after_calls (length array - 1) g, calls) \<and>
     calls = map (\<lambda>i. int i + 1) (rev [1..<length array]) \<and>
     length calls = length array - 1 \<and>
     mset res = mset array"
proof -
  from shuffle_ok [of g array] obtain res where
    "shuffle g array =
       Inr (res, after_calls (length array - 1) g,
            map (\<lambda>i. int i + 1) (rev [1..<length array]))"
    "mset res = mset array"
    by blast
  then show ?thesis by simp
qed

section \<open>Properties of the builder's loops\<close>


lemma length_draws: "length (fst (draws f k g)) = k"
  by (induction k arbitrary: g) (simp_all add: split_beta)

lemma remove_hits_loop_eq:
  "remove_hits_loop k nn g (is_hit, indices, miss_keys) =
     ((is_hit @ replicate k True,
       indices @ map (\<lambda>t. fst (next_usize (after_usize t nn g) nn)) [0..<k],
       miss_keys @ replicate k 0),
      after_usize k nn g)"
proof (induction k arbitrary: g is_hit indices miss_keys)
  case 0
  then show ?case by simp
next
  case (Suc k)
  show ?case
    by (simp add: split_beta Suc.IH map_upt_Suc replicate_app_Cons_same del: upt_Suc replicate_Suc)
       (simp add: replicate_app_Cons_same [symmetric])
qed

lemma miss_key_nonzero:
  "nn \<noteq> 0 \<Longrightarrow> miss_key nn g = Inr (nn + fst (next_u64 g) mod nn + 1, snd (next_u64 g))"
  by (simp add: miss_key_def split_beta)

lemma remove_misses_loop_eq:
  "nn \<noteq> 0 \<Longrightarrow>
   remove_misses_loop k nn g (is_hit, indices, miss_keys) =
     Inr ((is_hit @ replicate k False,
           indices @ replicate k 0,
           miss_keys @ map (\<lambda>t. nn + fst (next_u64 (after_calls t g)) mod nn + 1) [0..<k]),
          after_calls k g)"
proof (induction k arbitrary: g is_hit indices miss_keys)
  case 0
  then show ?case by simp
next
  case (Suc k)
  show ?case using Suc.prems
    by (simp add: miss_key_nonzero Suc.IH map_upt_Suc del: upt_Suc replicate_Suc)
       (simp add: replicate_app_Cons_same [symmetric])
qed

lemma search_loop_eq:
  "nn \<noteq> 0 \<Longrightarrow>
   search_loop k nn rate g (is_hit, indices, miss_keys) =
     Inr ((is_hit @ map (\<lambda>t. fst (search_entry nn rate (after_searches t nn rate g))) [0..<k],
           indices @ map (\<lambda>t. fst (snd (search_entry nn rate (after_searches t nn rate g)))) [0..<k],
           miss_keys @ map (\<lambda>t. snd (snd (search_entry nn rate (after_searches t nn rate g)))) [0..<k]),
          after_searches k nn rate g)"
proof (induction k arbitrary: g is_hit indices miss_keys)
  case 0
  then show ?case by simp
next
  case (Suc k)
  show ?case
  proof (cases "fst (next_f64 g) < rate")
    case True
    then show ?thesis using Suc.prems
      by (simp add: split_beta Let_def Suc.IH map_upt_Suc search_entry_def search_iteration_def
          del: upt_Suc)
  next
    case False
    then show ?thesis using Suc.prems
      by (simp add: split_beta Let_def Suc.IH map_upt_Suc search_entry_def search_iteration_def
          miss_key_nonzero del: upt_Suc)
  qed
qed

lemma py_get_in_range:
  "0 \<le> i \<Longrightarrow> i < int (length xs) \<Longrightarrow> py_get xs i = Inr (xs ! nat i)"
  by (simp add: py_get_def py_index_in_range)

lemma reindex_ok:
  assumes "\<forall>i \<in> set is. 0 \<le> i \<and> i < int (length order)"
    and "\<forall>k \<in> set order. 0 \<le> k \<and> k < int (length keys)"
  shows "reindex keys order is = Inr (map (\<lambda>i. keys ! nat (order ! nat i)) is)"
  using assms(1)
proof (induction "is")
  case Nil
  then show ?case by simp
next
  case (Cons i "is")
  then have i: "0 \<le> i" "i < int (length order)" by simp_all
  then have "order ! nat i \<in> set order" by simp
  with assms(2) have k: "0 \<le> order ! nat i" "order ! nat i < int (length keys)" by simp_all
  show ?case using Cons i k by (simp add: py_get_in_range)
qed

lemma length_py_range: "length (py_range m) = nat m"
  by (simp add: py_range_def)

lemma set_py_range: "set (py_range m) = {k. 0 \<le> k \<and> k < m}"
proof -
  have "k \<in> int ` {0..<nat m} \<longleftrightarrow> 0 \<le> k \<and> k < m" for k
  proof
    assume "k \<in> int ` {0..<nat m}" then show "0 \<le> k \<and> k < m" by auto
  next
    assume "0 \<le> k \<and> k < m"
    then have "nat k \<in> {0..<nat m}" "k = int (nat k)" by auto
    then show "k \<in> int ` {0..<nat m}" by blast
  qed
  then show ?thesis by (auto simp add: py_range_def)
qed

lemma reindex_identity:
  assumes "mset order = mset (py_range m)"
  shows "reindex (py_range m) order (py_range m) = Inr order"
proof -
  have len: "length order = nat m"
    using assms length_py_range [of m] by (metis size_mset)
  have st: "set order = {k. 0 \<le> k \<and> k < m}"
    using assms set_py_range [of m] by (metis set_mset_mset)
  have a1: "\<forall>i \<in> set (py_range m). 0 \<le> i \<and> i < int (length order)"
    using len by (auto simp add: set_py_range)
  have a2: "\<forall>k \<in> set order. 0 \<le> k \<and> k < int (length (py_range m))"
    using st by (auto simp add: length_py_range)
  have "map (\<lambda>i. py_range m ! nat (order ! nat i)) (py_range m) = map (\<lambda>j. order ! j) [0..<length order]"
  proof -
    have "py_range m ! nat (order ! j) = order ! j" if "j < length order" for j
    proof -
      have "order ! j \<in> set order" using that by simp
      then have "0 \<le> order ! j" "order ! j < m" using st by auto
      then show ?thesis by (simp add: py_range_def)
    qed
    then show ?thesis by (simp add: py_range_def len comp_def)
  qed
  then have "map (\<lambda>i. py_range m ! nat (order ! nat i)) (py_range m) = order"
    by (simp add: map_nth)
  with reindex_ok [OF a1 a2] show ?thesis by simp
qed

text \<open>
  With \<open>N\<close> not 0 nothing in \<open>generate_data\<close> raises, and every field of the
  dictionary it returns has a closed form in the generator states.
\<close>

lemma generate_data_eq:
  assumes "N cfg \<noteq> 0"
  shows "\<exists>order calls.
     shuffle (rng_at_shuffle cfg) (py_range (N cfg)) = Inr (order, rng_at_updates cfg, calls) \<and>
     mset order = mset (py_range (N cfg)) \<and>
     reindex (py_range (N cfg)) order (py_range (N cfg)) = Inr order \<and>
     rng_at_searches cfg =
       after_calls (nat (REMOVE_MISSES cfg))
         (after_usize (nat (REMOVE_HITS cfg)) (N cfg) (rng_at_removes cfg)) \<and>
     generate_data cfg =
       Inr \<lparr>insert_keys = order,
            insert_data = fst (draws rand_char (nat (N cfg)) (init (SEED cfg))),
            update_indices =
              fst (draws (\<lambda>g. next_usize g (N cfg)) (nat (UPDATE_COUNT cfg)) (rng_at_updates cfg)),
            update_data =
              fst (draws rand_char (nat (UPDATE_COUNT cfg))
                (snd (draws (\<lambda>g. next_usize g (N cfg)) (nat (UPDATE_COUNT cfg))
                   (rng_at_updates cfg)))),
            remove_is_hit =
              replicate (nat (REMOVE_HITS cfg)) True @ replicate (nat (REMOVE_MISSES cfg)) False,
            remove_indices =
              map (\<lambda>t. fst (next_usize (after_usize t (N cfg) (rng_at_removes cfg)) (N cfg)))
                [0..<nat (REMOVE_HITS cfg)] @ replicate (nat (REMOVE_MISSES cfg)) 0,
            remove_miss_keys =
              replicate (nat (REMOVE_HITS cfg)) 0 @
              map (\<lambda>t. N cfg +
                     fst (next_u64 (after_calls t
                       (after_usize (nat (REMOVE_HITS cfg)) (N cfg) (rng_at_removes cfg))))
                     mod N cfg + 1)
                [0..<nat (REMOVE_MISSES cfg)],
            search_is_hit =
              map (\<lambda>t. fst (search_entry (N cfg) (SEARCH_HIT_RATE cfg)
                     (after_searches t (N cfg) (SEARCH_HIT_RATE cfg) (rng_at_searches cfg))))
                [0..<nat (SEARCH_COUNT cfg)],
            search_indices =
              map (\<lambda>t. fst (snd (search_entry (N cfg) (SEARCH_HIT_RATE cfg)
                     (after_searches t (N cfg) (SEARCH_HIT_RATE cfg) (rng_at_searches cfg)))))
                [0..<nat (SEARCH_COUNT cfg)],
            search_miss_keys =
              map (\<lambda>t. snd (snd (search_entry (N cfg) (SEARCH_HIT_RATE cfg)
                     (after_searches t (N cfg) (SEARCH_HIT_RATE cfg) (rng_at_searches cfg)))))
                [0..<nat (SEARCH_COUNT cfg)],
            wl_n = N cfg,
            wl_updates = UPDATE_COUNT cfg,
            wl_removes = REMOVE_COUNT cfg,
            wl_searches = SEARCH_COUNT cfg\<rparr>"
proof -
  from shuffle_ok [of "rng_at_shuffle cfg" "py_range (N cfg)"] obtain order calls g where
    sh: "shuffle (rng_at_shuffle cfg) (py_range (N cfg)) = Inr (order, g, calls)"
    and ms: "mset order = mset (py_range (N cfg))"
    by blast
  have g: "g = rng_at_updates cfg"
    by (simp add: rng_at_updates_def sh)
  have re: "reindex (py_range (N cfg)) order (py_range (N cfg)) = Inr order"
    using ms by (rule reindex_identity)
  have rs: "rng_at_searches cfg =
       after_calls (nat (REMOVE_MISSES cfg))
         (after_usize (nat (REMOVE_HITS cfg)) (N cfg) (rng_at_removes cfg))"
    using assms by (simp add: rng_at_searches_def remove_hits_loop_eq remove_misses_loop_eq)
  have sh': "shuffle (snd (draws rand_char (nat (N cfg)) (init (SEED cfg)))) (py_range (N cfg)) =
      Inr (order, rng_at_updates cfg, calls)"
    using sh g by (simp add: rng_at_shuffle_def)
  show ?thesis
    using assms sh g ms re rs
    by (intro exI [of _ order] exI [of _ calls])
       (simp add: generate_data_def Let_def split_beta sh' re remove_hits_loop_eq
        remove_misses_loop_eq search_loop_eq rng_at_removes_def)
qed

lemma generate_data_fields:
  assumes "N cfg \<noteq> 0"
  shows "\<exists>w order calls.
     generate_data cfg = Inr w \<and>
     shuffle (rng_at_shuffle cfg) (py_range (N cfg)) = Inr (order, rng_at_updates cfg, calls) \<and>
     mset order = mset (py_range (N cfg)) \<and>
     reindex (py_range (N cfg)) order (py_range (N cfg)) = Inr order \<and>
     rng_at_searches cfg =
       after_calls (nat (REMOVE_MISSES cfg))
         (after_usize (nat (REMOVE_HITS cfg)) (N cfg) (rng_at_removes cfg)) \<and>
     insert_keys w = order \<and>
     insert_data w = fst (draws rand_char (nat (N cfg)) (init (SEED cfg))) \<and>
     update_indices w =
       fst (draws (\<lambda>g. next_usize g (N cfg)) (nat (UPDATE_COUNT cfg)) (rng_at_updates cfg)) \<and>
     update_data w =
       fst (draws rand_char (nat (UPDATE_COUNT cfg))
         (snd (draws (\<lambda>g. next_usize g (N cfg)) (nat (UPDATE_COUNT cfg))
            (rng_at_updates cfg)))) \<and>
     remove_is_hit w =
       replicate (nat (REMOVE_HITS cfg)) True @ replicate (nat (REMOVE_MISSES cfg)) False \<and>
     remove_indices w =
       map (\<lambda>t. fst (next_usize (after_usize t (N cfg) (rng_at_removes cfg)) (N cfg)))
         [0..<nat (REMOVE_HITS cfg)] @ replicate (nat (REMOVE_MISSES cfg)) 0 \<and>
     remove_miss_keys w =
       replicate (nat (REMOVE_HITS cfg)) 0 @
       map (\<lambda>t. N cfg +
              fst (next_u64 (after_calls t
                (after_usize (nat (REMOVE_HITS cfg)) (N cfg) (rng_at_removes cfg))))
              mod N cfg + 1)
         [0..<nat (REMOVE_MISSES cfg)] \<and>
     search_is_hit w =
       map (\<lambda>t. fst (search_entry (N cfg) (SEARCH_HIT_RATE cfg)
              (after_searches t (N cfg) (SEARCH_HIT_RATE cfg) (rng_at_searches cfg))))
         [0..<nat (SEARCH_COUNT cfg)] \<and>
     search_indices w =
       map (\<lambda>t. fst (snd (search_entry (N cfg) (SEARCH_HIT_RATE cfg)
              (after_searches t (N cfg) (SEARCH_HIT_RATE cfg) (rng_at_searches cfg)))))
         [0..<nat (SEARCH_COUNT cfg)] \<and>
     search_miss_keys w =
       map (\<lambda>t. snd (snd (search_entry (N cfg) (SEARCH_HIT_RATE cfg)
              (after_searches t (N cfg) (SEARCH_HIT_RATE cfg) (rng_at_searches cfg)))))
         [0..<nat (SEARCH_COUNT cfg)] \<and>
     wl_n w = N cfg \<and>
     wl_updates w = UPDATE_COUNT cfg \<and>
     wl_removes w = REMOVE_COUNT cfg \<and>
     wl_searches w = SEARCH_COUNT cfg"
proof -
  show ?thesis
    using generate_data_eq [OF assms] by (elim exE conjE) simp
qed

lemma next_usize_in_domain:
  "0 < bound \<Longrightarrow> 0 \<le> fst (next_usize g bound) \<and> fst (next_usize g bound) < bound"
  by (simp add: next_usize_def split_beta)

lemma after_searches_Suc:
  "after_searches (Suc k) nn rate g = search_iteration nn rate (after_searches k nn rate g)"
  by (induction k arbitrary: g) simp_all

section \<open>Properties of the workload\<close>

text \<open>
  C5. With a positive \<open>N\<close> the builder returns a workload whose \<open>insert_keys\<close> is
  what re-indexing the identity key list \<open>0..N-1\<close> through the shuffled index array
  gives; it has exactly \<open>N\<close> elements and is a permutation of \<open>0..N-1\<close>, and
  \<open>insert_data\<close> has exactly \<open>N\<close> elements as well, one per position of
  \<open>insert_keys\<close>.
\<close>

theorem insert_series:
  assumes "0 < N cfg"
  shows "\<exists>w order g calls.
     generate_data cfg = Inr w \<and>
     shuffle (rng_at_shuffle cfg) (py_range (N cfg)) = Inr (order, g, calls) \<and>
     reindex (py_range (N cfg)) order (py_range (N cfg)) = Inr (insert_keys w) \<and>
     int (length (insert_keys w)) = N cfg \<and>
     mset (insert_keys w) = mset (py_range (N cfg)) \<and>
     int (length (insert_data w)) = N cfg"
proof -
  from assms have "N cfg \<noteq> 0" by simp
  from generate_data_fields [OF this] obtain w order calls where
    gd: "generate_data cfg = Inr w"
    and sh: "shuffle (rng_at_shuffle cfg) (py_range (N cfg)) = Inr (order, rng_at_updates cfg, calls)"
    and ms: "mset order = mset (py_range (N cfg))"
    and re: "reindex (py_range (N cfg)) order (py_range (N cfg)) = Inr order"
    and ik: "insert_keys w = order"
    and idt: "insert_data w = fst (draws rand_char (nat (N cfg)) (init (SEED cfg)))"
    by blast
  have "length order = length (py_range (N cfg))"
    using ms by (metis size_mset)
  then have "int (length (insert_keys w)) = N cfg"
    using assms ik by (simp add: length_py_range)
  moreover have "int (length (insert_data w)) = N cfg"
    using assms idt by (simp add: length_draws)
  ultimately show ?thesis using gd sh ms re ik by auto
qed

theorem insert_series_witness:
  "0 < N source_config \<and>
   (\<exists>w. generate_data source_config = Inr w \<and>
        length (insert_keys w) = 1000000 \<and>
        mset (insert_keys w) = mset (py_range 1000000) \<and>
        length (insert_data w) = 1000000)"
proof -
  have h: "0 < N source_config" by (simp add: source_config_def)
  have n: "N source_config = 1000000" by (simp add: source_config_def)
  from insert_series [OF h] show ?thesis unfolding n by auto
qed

text \<open>
  C6. With a positive \<open>N\<close> and non-negative \<open>REMOVE_HITS\<close> and \<open>REMOVE_MISSES\<close>, the
  remove series has \<open>REMOVE_HITS + REMOVE_MISSES\<close> entries. Entry \<open>k\<close> of the first
  \<open>REMOVE_HITS\<close> is a hit whose index is the \<open>k\<close>-th successive \<open>next_usize(N)\<close> draw
  of the generator as it stands when the remove section starts, and lies in \<open>[0, N)\<close>.
  Entry \<open>k\<close> of the following \<open>REMOVE_MISSES\<close> is a miss whose key is
  \<open>N + (next_u64() % N) + 1\<close> for the \<open>k\<close>-th successive \<open>next_u64\<close> draw after the
  hits, above \<open>N - 1\<close> and at most \<open>2N\<close>. So all hits come before all misses.
\<close>

theorem remove_series:
  assumes "0 < N cfg" and "0 \<le> REMOVE_HITS cfg" and "0 \<le> REMOVE_MISSES cfg"
  shows "\<exists>w. generate_data cfg = Inr w \<and>
     int (length (remove_is_hit w)) = REMOVE_HITS cfg + REMOVE_MISSES cfg \<and>
     (\<forall>k < nat (REMOVE_HITS cfg).
        remove_is_hit w ! k \<and>
        remove_indices w ! k =
          fst (next_usize (after_usize k (N cfg) (rng_at_removes cfg)) (N cfg)) \<and>
        0 \<le> remove_indices w ! k \<and> remove_indices w ! k < N cfg) \<and>
     (\<forall>k < nat (REMOVE_MISSES cfg).
        \<not> remove_is_hit w ! (nat (REMOVE_HITS cfg) + k) \<and>
        remove_miss_keys w ! (nat (REMOVE_HITS cfg) + k) =
          N cfg +
          fst (next_u64 (after_calls k
            (after_usize (nat (REMOVE_HITS cfg)) (N cfg) (rng_at_removes cfg)))) mod N cfg + 1 \<and>
        N cfg - 1 < remove_miss_keys w ! (nat (REMOVE_HITS cfg) + k) \<and>
        remove_miss_keys w ! (nat (REMOVE_HITS cfg) + k) \<le> 2 * N cfg)"
proof -
  from assms have "N cfg \<noteq> 0" by simp
  from generate_data_fields [OF this] obtain w where
    gd: "generate_data cfg = Inr w"
    and rh: "remove_is_hit w =
       replicate (nat (REMOVE_HITS cfg)) True @ replicate (nat (REMOVE_MISSES cfg)) False"
    and ri: "remove_indices w =
       map (\<lambda>t. fst (next_usize (after_usize t (N cfg) (rng_at_removes cfg)) (N cfg)))
         [0..<nat (REMOVE_HITS cfg)] @ replicate (nat (REMOVE_MISSES cfg)) 0"
    and rm: "remove_miss_keys w =
       replicate (nat (REMOVE_HITS cfg)) 0 @
       map (\<lambda>t. N cfg +
              fst (next_u64 (after_calls t
                (after_usize (nat (REMOVE_HITS cfg)) (N cfg) (rng_at_removes cfg))))
              mod N cfg + 1)
         [0..<nat (REMOVE_MISSES cfg)]"
    by blast
  have len: "int (length (remove_is_hit w)) = REMOVE_HITS cfg + REMOVE_MISSES cfg"
    using assms rh by simp
  have hits: "remove_is_hit w ! k \<and>
        remove_indices w ! k =
          fst (next_usize (after_usize k (N cfg) (rng_at_removes cfg)) (N cfg)) \<and>
        0 \<le> remove_indices w ! k \<and> remove_indices w ! k < N cfg"
    if "k < nat (REMOVE_HITS cfg)" for k
    using that next_usize_in_domain [OF assms(1), of "after_usize k (N cfg) (rng_at_removes cfg)"]
    by (simp add: rh ri nth_append)
  have misses: "\<not> remove_is_hit w ! (nat (REMOVE_HITS cfg) + k) \<and>
        remove_miss_keys w ! (nat (REMOVE_HITS cfg) + k) =
          N cfg +
          fst (next_u64 (after_calls k
            (after_usize (nat (REMOVE_HITS cfg)) (N cfg) (rng_at_removes cfg)))) mod N cfg + 1 \<and>
        N cfg - 1 < remove_miss_keys w ! (nat (REMOVE_HITS cfg) + k) \<and>
        remove_miss_keys w ! (nat (REMOVE_HITS cfg) + k) \<le> 2 * N cfg"
    if "k < nat (REMOVE_MISSES cfg)" for k
  proof -
    let ?u = "fst (next_u64 (after_calls k
            (after_usize (nat (REMOVE_HITS cfg)) (N cfg) (rng_at_removes cfg))))"
    have "0 \<le> ?u mod N cfg" "?u mod N cfg < N cfg"
      using assms(1) by simp_all
    then show ?thesis using that by (simp add: rh rm nth_append)
  qed
  from gd len hits misses show ?thesis by blast
qed

theorem remove_series_witness:
  "0 < N source_config \<and> 0 \<le> REMOVE_HITS source_config \<and> 0 \<le> REMOVE_MISSES source_config \<and>
   (\<exists>w. generate_data source_config = Inr w \<and>
      length (remove_is_hit w) = 750000 \<and>
      remove_is_hit w ! 499999 \<and>
      0 \<le> remove_indices w ! 499999 \<and> remove_indices w ! 499999 < 1000000 \<and>
      \<not> remove_is_hit w ! 500000 \<and>
      999999 < remove_miss_keys w ! 500000 \<and> remove_miss_keys w ! 500000 \<le> 2000000)"
proof -
  have h: "0 < N source_config" "0 \<le> REMOVE_HITS source_config"
    "0 \<le> REMOVE_MISSES source_config"
    by (simp_all add: source_config_def)
  from remove_series [OF h] obtain w where
    gd: "generate_data source_config = Inr w"
    and len: "int (length (remove_is_hit w)) = REMOVE_HITS source_config + REMOVE_MISSES source_config"
    and hits: "\<forall>k < nat (REMOVE_HITS source_config).
        remove_is_hit w ! k \<and>
        remove_indices w ! k =
          fst (next_usize (after_usize k (N source_config) (rng_at_removes source_config)) (N source_config)) \<and>
        0 \<le> remove_indices w ! k \<and> remove_indices w ! k < N source_config"
    and misses: "\<forall>k < nat (REMOVE_MISSES source_config).
        \<not> remove_is_hit w ! (nat (REMOVE_HITS source_config) + k) \<and>
        remove_miss_keys w ! (nat (REMOVE_HITS source_config) + k) =
          N source_config +
          fst (next_u64 (after_calls k
            (after_usize (nat (REMOVE_HITS source_config)) (N source_config) (rng_at_removes source_config)))) mod N source_config + 1 \<and>
        N source_config - 1 < remove_miss_keys w ! (nat (REMOVE_HITS source_config) + k) \<and>
        remove_miss_keys w ! (nat (REMOVE_HITS source_config) + k) \<le> 2 * N source_config"
    by blast
  have a: "length (remove_is_hit w) = 750000"
    using len by (simp add: source_config_def)
  have "(499999::nat) < nat (REMOVE_HITS source_config)" by (simp add: source_config_def)
  with hits have b: "remove_is_hit w ! 499999 \<and> 0 \<le> remove_indices w ! 499999 \<and>
      remove_indices w ! 499999 < N source_config"
    by blast
  have "(0::nat) < nat (REMOVE_MISSES source_config)" by (simp add: source_config_def)
  with misses have c: "\<not> remove_is_hit w ! (nat (REMOVE_HITS source_config) + 0) \<and>
      N source_config - 1 < remove_miss_keys w ! (nat (REMOVE_HITS source_config) + 0) \<and>
      remove_miss_keys w ! (nat (REMOVE_HITS source_config) + 0) \<le> 2 * N source_config"
    by blast
  have d: "nat (REMOVE_HITS source_config) + 0 = 500000" "N source_config = 1000000"
    by (simp_all add: source_config_def)
  from gd a b c show ?thesis unfolding d using h by auto
qed

text \<open>
  C7. With a positive \<open>N\<close> and a non-negative \<open>SEARCH_COUNT\<close>, the search series has
  \<open>SEARCH_COUNT\<close> entries. For entry \<open>k\<close>, let \<open>g\<close> be the generator after the
  first \<open>k\<close> iterations and \<open>f\<close> the \<open>next_f64\<close> draw from \<open>g\<close>. The entry is a hit
  exactly when \<open>f < SEARCH_HIT_RATE\<close>; then its index is the following
  \<open>next_usize(N)\<close> draw, in \<open>[0, N)\<close>. Otherwise its key is \<open>N + (draw % N) + 1\<close> for the
  following \<open>next_u64\<close> draw, outside \<open>[0, N)\<close>. In both cases the next iteration
  starts with the generator that this second draw leaves.
\<close>

theorem search_series:
  assumes "0 < N cfg" and "0 \<le> SEARCH_COUNT cfg"
  shows "\<exists>w. generate_data cfg = Inr w \<and>
     int (length (search_is_hit w)) = SEARCH_COUNT cfg \<and>
     (\<forall>k < nat (SEARCH_COUNT cfg).
        (let g = after_searches k (N cfg) (SEARCH_HIT_RATE cfg) (rng_at_searches cfg);
             (f, g1) = next_f64 g
         in search_is_hit w ! k = (f < SEARCH_HIT_RATE cfg) \<and>
            (f < SEARCH_HIT_RATE cfg \<longrightarrow>
               search_indices w ! k = fst (next_usize g1 (N cfg)) \<and>
               0 \<le> search_indices w ! k \<and> search_indices w ! k < N cfg \<and>
               after_searches (Suc k) (N cfg) (SEARCH_HIT_RATE cfg) (rng_at_searches cfg) =
                 snd (next_usize g1 (N cfg))) \<and>
            (\<not> f < SEARCH_HIT_RATE cfg \<longrightarrow>
               search_miss_keys w ! k = N cfg + fst (next_u64 g1) mod N cfg + 1 \<and>
               \<not> (0 \<le> search_miss_keys w ! k \<and> search_miss_keys w ! k < N cfg) \<and>
               after_searches (Suc k) (N cfg) (SEARCH_HIT_RATE cfg) (rng_at_searches cfg) =
                 snd (next_u64 g1))))"
proof -
  from assms have "N cfg \<noteq> 0" by simp
  from generate_data_fields [OF this] obtain w where
    gd: "generate_data cfg = Inr w"
    and sh: "search_is_hit w =
       map (\<lambda>t. fst (search_entry (N cfg) (SEARCH_HIT_RATE cfg)
              (after_searches t (N cfg) (SEARCH_HIT_RATE cfg) (rng_at_searches cfg))))
         [0..<nat (SEARCH_COUNT cfg)]"
    and si: "search_indices w =
       map (\<lambda>t. fst (snd (search_entry (N cfg) (SEARCH_HIT_RATE cfg)
              (after_searches t (N cfg) (SEARCH_HIT_RATE cfg) (rng_at_searches cfg)))))
         [0..<nat (SEARCH_COUNT cfg)]"
    and sm: "search_miss_keys w =
       map (\<lambda>t. snd (snd (search_entry (N cfg) (SEARCH_HIT_RATE cfg)
              (after_searches t (N cfg) (SEARCH_HIT_RATE cfg) (rng_at_searches cfg)))))
         [0..<nat (SEARCH_COUNT cfg)]"
    by blast
  have len: "int (length (search_is_hit w)) = SEARCH_COUNT cfg"
    using assms sh by simp
  have entry: "(let g = after_searches k (N cfg) (SEARCH_HIT_RATE cfg) (rng_at_searches cfg);
             (f, g1) = next_f64 g
         in search_is_hit w ! k = (f < SEARCH_HIT_RATE cfg) \<and>
            (f < SEARCH_HIT_RATE cfg \<longrightarrow>
               search_indices w ! k = fst (next_usize g1 (N cfg)) \<and>
               0 \<le> search_indices w ! k \<and> search_indices w ! k < N cfg \<and>
               after_searches (Suc k) (N cfg) (SEARCH_HIT_RATE cfg) (rng_at_searches cfg) =
                 snd (next_usize g1 (N cfg))) \<and>
            (\<not> f < SEARCH_HIT_RATE cfg \<longrightarrow>
               search_miss_keys w ! k = N cfg + fst (next_u64 g1) mod N cfg + 1 \<and>
               \<not> (0 \<le> search_miss_keys w ! k \<and> search_miss_keys w ! k < N cfg) \<and>
               after_searches (Suc k) (N cfg) (SEARCH_HIT_RATE cfg) (rng_at_searches cfg) =
                 snd (next_u64 g1)))"
    if k: "k < nat (SEARCH_COUNT cfg)" for k
  proof -
    let ?g = "after_searches k (N cfg) (SEARCH_HIT_RATE cfg) (rng_at_searches cfg)"
    let ?g1 = "snd (next_f64 ?g)"
    have r: "0 \<le> fst (next_usize ?g1 (N cfg))" "fst (next_usize ?g1 (N cfg)) < N cfg"
      using next_usize_in_domain [OF assms(1), of ?g1] by simp_all
    have "0 \<le> fst (next_u64 ?g1) mod N cfg"
      using assms(1) by simp
    then have m: "\<not> fst (next_u64 ?g1) mod N cfg + 1 < 0"
      by linarith
    show ?thesis
      using k r m
      by (simp add: sh si sm Let_def split_beta search_entry_def after_searches_Suc
          search_iteration_def del: after_searches.simps)
  qed
  from gd len entry show ?thesis by blast
qed

theorem search_series_witness:
  "0 < N source_config \<and> 0 \<le> SEARCH_COUNT source_config \<and>
   (\<exists>w. generate_data source_config = Inr w \<and>
      length (search_is_hit w) = 1000000 \<and>
      search_is_hit w ! 0 = (fst (next_f64 (rng_at_searches source_config)) < 1 / 2))"
proof -
  have h: "0 < N source_config" "0 \<le> SEARCH_COUNT source_config"
    by (simp_all add: source_config_def)
  have k: "(0::nat) < nat (SEARCH_COUNT source_config)"
    by (simp add: source_config_def)
  have c: "SEARCH_COUNT source_config = 1000000" "SEARCH_HIT_RATE source_config = 1 / 2"
    by (simp_all add: source_config_def)
  from search_series [OF h] obtain w where
    gd: "generate_data source_config = Inr w"
    and len: "int (length (search_is_hit w)) = SEARCH_COUNT source_config"
    and ent: "\<forall>k < nat (SEARCH_COUNT source_config).
        (let g = after_searches k (N source_config) (SEARCH_HIT_RATE source_config)
                   (rng_at_searches source_config);
             (f, g1) = next_f64 g
         in search_is_hit w ! k = (f < SEARCH_HIT_RATE source_config) \<and>
            (f < SEARCH_HIT_RATE source_config \<longrightarrow>
               search_indices w ! k = fst (next_usize g1 (N source_config)) \<and>
               0 \<le> search_indices w ! k \<and> search_indices w ! k < N source_config \<and>
               after_searches (Suc k) (N source_config) (SEARCH_HIT_RATE source_config)
                 (rng_at_searches source_config) = snd (next_usize g1 (N source_config))) \<and>
            (\<not> f < SEARCH_HIT_RATE source_config \<longrightarrow>
               search_miss_keys w ! k =
                 N source_config + fst (next_u64 g1) mod N source_config + 1 \<and>
               \<not> (0 \<le> search_miss_keys w ! k \<and> search_miss_keys w ! k < N source_config) \<and>
               after_searches (Suc k) (N source_config) (SEARCH_HIT_RATE source_config)
                 (rng_at_searches source_config) = snd (next_u64 g1)))"
    by blast
  from ent k have
    "search_is_hit w ! 0 =
       (fst (next_f64 (rng_at_searches source_config)) < SEARCH_HIT_RATE source_config)"
    by (auto simp add: Let_def split_beta)
  with gd len h show ?thesis unfolding c by auto
qed

text \<open>
  C10. With \<open>N\<close> not 0 the builder returns a workload in which the three remove arrays
  all have the length of the remove series and the three search arrays all have the
  length of the search series; at every position of either series, a hit has 0 in its
  miss-key slot and a miss has 0 in its index slot.
\<close>

theorem unused_slots_padded:
  assumes "N cfg \<noteq> 0"
  shows "\<exists>w. generate_data cfg = Inr w \<and>
     length (remove_is_hit w) = nat (REMOVE_HITS cfg) + nat (REMOVE_MISSES cfg) \<and>
     length (remove_indices w) = length (remove_is_hit w) \<and>
     length (remove_miss_keys w) = length (remove_is_hit w) \<and>
     length (search_is_hit w) = nat (SEARCH_COUNT cfg) \<and>
     length (search_indices w) = length (search_is_hit w) \<and>
     length (search_miss_keys w) = length (search_is_hit w) \<and>
     (\<forall>k < length (remove_is_hit w).
        if remove_is_hit w ! k then remove_miss_keys w ! k = 0 else remove_indices w ! k = 0) \<and>
     (\<forall>k < length (search_is_hit w).
        if search_is_hit w ! k then search_miss_keys w ! k = 0 else search_indices w ! k = 0)"
proof -
  from generate_data_fields [OF assms] obtain w where
    gd: "generate_data cfg = Inr w"
    and rh: "remove_is_hit w =
       replicate (nat (REMOVE_HITS cfg)) True @ replicate (nat (REMOVE_MISSES cfg)) False"
    and ri: "remove_indices w =
       map (\<lambda>t. fst (next_usize (after_usize t (N cfg) (rng_at_removes cfg)) (N cfg)))
         [0..<nat (REMOVE_HITS cfg)] @ replicate (nat (REMOVE_MISSES cfg)) 0"
    and rm: "remove_miss_keys w =
       replicate (nat (REMOVE_HITS cfg)) 0 @
       map (\<lambda>t. N cfg +
              fst (next_u64 (after_calls t
                (after_usize (nat (REMOVE_HITS cfg)) (N cfg) (rng_at_removes cfg))))
              mod N cfg + 1)
         [0..<nat (REMOVE_MISSES cfg)]"
    and sh: "search_is_hit w =
       map (\<lambda>t. fst (search_entry (N cfg) (SEARCH_HIT_RATE cfg)
              (after_searches t (N cfg) (SEARCH_HIT_RATE cfg) (rng_at_searches cfg))))
         [0..<nat (SEARCH_COUNT cfg)]"
    and si: "search_indices w =
       map (\<lambda>t. fst (snd (search_entry (N cfg) (SEARCH_HIT_RATE cfg)
              (after_searches t (N cfg) (SEARCH_HIT_RATE cfg) (rng_at_searches cfg)))))
         [0..<nat (SEARCH_COUNT cfg)]"
    and sm: "search_miss_keys w =
       map (\<lambda>t. snd (snd (search_entry (N cfg) (SEARCH_HIT_RATE cfg)
              (after_searches t (N cfg) (SEARCH_HIT_RATE cfg) (rng_at_searches cfg)))))
         [0..<nat (SEARCH_COUNT cfg)]"
    by blast
  have lens: "length (remove_is_hit w) = nat (REMOVE_HITS cfg) + nat (REMOVE_MISSES cfg)"
    "length (remove_indices w) = length (remove_is_hit w)"
    "length (remove_miss_keys w) = length (remove_is_hit w)"
    "length (search_is_hit w) = nat (SEARCH_COUNT cfg)"
    "length (search_indices w) = length (search_is_hit w)"
    "length (search_miss_keys w) = length (search_is_hit w)"
    by (simp_all add: rh ri rm sh si sm)
  have rem: "if remove_is_hit w ! k then remove_miss_keys w ! k = 0 else remove_indices w ! k = 0"
    if "k < length (remove_is_hit w)" for k
    using that by (simp add: rh ri rm nth_append)
  have sea: "if search_is_hit w ! k then search_miss_keys w ! k = 0 else search_indices w ! k = 0"
    if "k < length (search_is_hit w)" for k
    using that by (simp add: sh si sm search_entry_def split_beta Let_def)
  from gd lens rem sea show ?thesis by blast
qed

theorem unused_slots_padded_witness:
  "N source_config \<noteq> 0 \<and>
   (\<exists>w. generate_data source_config = Inr w \<and>
      length (remove_is_hit w) = 750000 \<and> length (remove_indices w) = 750000 \<and>
      length (remove_miss_keys w) = 750000 \<and>
      length (search_is_hit w) = 1000000 \<and> length (search_indices w) = 1000000 \<and>
      length (search_miss_keys w) = 1000000 \<and>
      (if remove_is_hit w ! 0 then remove_miss_keys w ! 0 = 0 else remove_indices w ! 0 = 0) \<and>
      (if search_is_hit w ! 0 then search_miss_keys w ! 0 = 0 else search_indices w ! 0 = 0))"
proof -
  have h: "N source_config \<noteq> 0" by (simp add: source_config_def)
  have c: "nat (REMOVE_HITS source_config) + nat (REMOVE_MISSES source_config) = 750000"
    "nat (SEARCH_COUNT source_config) = 1000000"
    by (simp_all add: source_config_def)
  from unused_slots_padded [OF h] obtain w where
    gd: "generate_data source_config = Inr w"
    and lens: "length (remove_is_hit w) = 750000"
      "length (remove_indices w) = length (remove_is_hit w)"
      "length (remove_miss_keys w) = length (remove_is_hit w)"
      "length (search_is_hit w) = 1000000"
      "length (search_indices w) = length (search_is_hit w)"
      "length (search_miss_keys w) = length (search_is_hit w)"
    and rem: "\<forall>k < length (remove_is_hit w).
        if remove_is_hit w ! k then remove_miss_keys w ! k = 0 else remove_indices w ! k = 0"
    and sea: "\<forall>k < length (search_is_hit w).
        if search_is_hit w ! k then search_miss_keys w ! k = 0 else search_indices w ! k = 0"
    unfolding c by blast
  have "(0::nat) < length (remove_is_hit w)" "(0::nat) < length (search_is_hit w)"
    using lens by simp_all
  with rem sea have
    "if remove_is_hit w ! 0 then remove_miss_keys w ! 0 = 0 else remove_indices w ! 0 = 0"
    "if search_is_hit w ! 0 then search_miss_keys w ! 0 = 0 else search_indices w ! 0 = 0"
    by blast+
  with gd lens h show ?thesis by auto
qed

lemma char_of_108: "char_of (108::int) = CHR ''l''"
  by code_simp

lemma rand_char_seed_1: "rand_char \<lparr>state = 1\<rparr> = (CHR ''l'', \<lparr>state = 33554433\<rparr>)"
  by (simp add: rand_char_def next_u64_def advance_def MASK64_def STAR_def Let_def char_of_108)

lemma remove_misses_loop_zero:
  "0 < k \<Longrightarrow> remove_misses_loop k 0 g acc = Inl ZeroDivisionError"
  by (cases k; cases acc) (simp_all add: miss_key_def split_beta)

lemma generate_data_zero:
  assumes "N cfg = 0" and "0 < REMOVE_MISSES cfg"
  shows "generate_data cfg = Inl ZeroDivisionError"
proof -
  have "0 < nat (REMOVE_MISSES cfg)" using assms(2) by simp
  then show ?thesis
    using assms(1)
    by (simp add: generate_data_def Let_def split_beta py_range_def shuffle_def
        remove_misses_loop_zero)
qed

text \<open>
  C9. The claim is that a configuration with
  \<open>REMOVE_HITS + REMOVE_MISSES \<noteq> REMOVE_COUNT\<close> is rejected before any generation
  begins. \<open>generate_data\<close> has no such check. With \<open>N = 1\<close>, \<open>SEED = 1\<close>, one remove hit,
  one remove miss and \<open>REMOVE_COUNT = 5\<close> it returns a workload: two remove entries, and
  5 in the \<open>removes\<close> field.
\<close>

theorem no_eager_validation_counterexample:
  "REMOVE_HITS \<lparr>N = 1, SEED = 1, UPDATE_COUNT = 0, REMOVE_COUNT = 5, REMOVE_HITS = 1,
       REMOVE_MISSES = 1, SEARCH_COUNT = 0, SEARCH_HIT_RATE = 1 / 2\<rparr>
     + REMOVE_MISSES \<lparr>N = 1, SEED = 1, UPDATE_COUNT = 0, REMOVE_COUNT = 5, REMOVE_HITS = 1,
       REMOVE_MISSES = 1, SEARCH_COUNT = 0, SEARCH_HIT_RATE = 1 / 2\<rparr>
     \<noteq> REMOVE_COUNT \<lparr>N = 1, SEED = 1, UPDATE_COUNT = 0, REMOVE_COUNT = 5, REMOVE_HITS = 1,
       REMOVE_MISSES = 1, SEARCH_COUNT = 0, SEARCH_HIT_RATE = 1 / 2\<rparr> \<and>
   generate_data \<lparr>N = 1, SEED = 1, UPDATE_COUNT = 0, REMOVE_COUNT = 5, REMOVE_HITS = 1,
       REMOVE_MISSES = 1, SEARCH_COUNT = 0, SEARCH_HIT_RATE = 1 / 2\<rparr> =
     Inr \<lparr>insert_keys = [0], insert_data = ''l'', update_indices = [],
          update_data = [], remove_is_hit = [True, False],
          remove_indices = [0, 0], remove_miss_keys = [0, 2],
          search_is_hit = [], search_indices = [], search_miss_keys = [],
          wl_n = 1, wl_updates = 0, wl_removes = 5, wl_searches = 0\<rparr>"
  by (simp add: generate_data_def Let_def rand_char_seed_1 init_def shuffle_def py_range_def
      py_get_def py_index_def next_usize_def miss_key_def split_beta)

text \<open>
  C9, as the code has it. No constant is checked before generation. When \<open>N\<close> is not 0,
  \<open>generate_data\<close> returns a workload whatever the other constants are: the remove
  series has \<open>REMOVE_HITS + REMOVE_MISSES\<close> entries (a negative count giving none) and
  the \<open>removes\<close> field is \<open>REMOVE_COUNT\<close> as given, equal to that sum or not. When
  \<open>N\<close> is 0 and \<open>REMOVE_MISSES\<close> is positive, the run ends with
  \<open>ZeroDivisionError\<close>, raised where the first miss key is computed.
\<close>

theorem no_configuration_check:
  "(N cfg \<noteq> 0 \<longrightarrow>
      (\<exists>w. generate_data cfg = Inr w \<and>
           length (remove_is_hit w) = nat (REMOVE_HITS cfg) + nat (REMOVE_MISSES cfg) \<and>
           wl_removes w = REMOVE_COUNT cfg)) \<and>
   (N cfg = 0 \<and> 0 < REMOVE_MISSES cfg \<longrightarrow> generate_data cfg = Inl ZeroDivisionError)"
proof (intro conjI impI)
  assume "N cfg \<noteq> 0"
  from generate_data_fields [OF this] obtain w where
    "generate_data cfg = Inr w"
    "remove_is_hit w =
       replicate (nat (REMOVE_HITS cfg)) True @ replicate (nat (REMOVE_MISSES cfg)) False"
    "wl_removes w = REMOVE_COUNT cfg"
    by blast
  then show "\<exists>w. generate_data cfg = Inr w \<and>
           length (remove_is_hit w) = nat (REMOVE_HITS cfg) + nat (REMOVE_MISSES cfg) \<and>
           wl_removes w = REMOVE_COUNT cfg"
    by auto
next
  assume "N cfg = 0 \<and> 0 < REMOVE_MISSES cfg"
  then show "generate_data cfg = Inl ZeroDivisionError"
    by (simp add: generate_data_zero)
qed

theorem no_configuration_check_witness:
  "N (source_config\<lparr>REMOVE_COUNT := 1\<rparr>) \<noteq> 0 \<and>
   REMOVE_HITS (source_config\<lparr>REMOVE_COUNT := 1\<rparr>) +
     REMOVE_MISSES (source_config\<lparr>REMOVE_COUNT := 1\<rparr>) \<noteq>
     REMOVE_COUNT (source_config\<lparr>REMOVE_COUNT := 1\<rparr>) \<and>
   (\<exists>w. generate_data (source_config\<lparr>REMOVE_COUNT := 1\<rparr>) = Inr w \<and>
        length (remove_is_hit w) = 750000 \<and> wl_removes w = 1) \<and>
   N (source_config\<lparr>N := 0\<rparr>) = 0 \<and> 0 < REMOVE_MISSES (source_config\<lparr>N := 0\<rparr>) \<and>
   generate_data (source_config\<lparr>N := 0\<rparr>) = Inl ZeroDivisionError"
  using no_configuration_check [of "source_config\<lparr>REMOVE_COUNT := 1\<rparr>"]
    no_configuration_check [of "source_config\<lparr>N := 0\<rparr>"]
  by (simp add: source_config_def)

text \<open>
  C8. Two runs of \<open>generate_data\<close> under module constants that agree one by one give
  the same result, hence the same workload, series by series; and two generators
  built from the same seed give the same first \<open>k\<close> outputs of \<open>next_u64\<close>, for
  every \<open>k\<close>.
\<close>

theorem build_deterministic:
  assumes "N c2 = N c1" and "SEED c2 = SEED c1" and "UPDATE_COUNT c2 = UPDATE_COUNT c1"
    and "REMOVE_COUNT c2 = REMOVE_COUNT c1" and "REMOVE_HITS c2 = REMOVE_HITS c1"
    and "REMOVE_MISSES c2 = REMOVE_MISSES c1" and "SEARCH_COUNT c2 = SEARCH_COUNT c1"
    and "SEARCH_HIT_RATE c2 = SEARCH_HIT_RATE c1" and "seed2 = seed1"
  shows "generate_data c2 = generate_data c1 \<and>
         fst (draws next_u64 k (init seed2)) = fst (draws next_u64 k (init seed1))"
proof -
  have "c2 = c1" using assms(1-8) by (cases c1, cases c2) simp
  with assms(9) show ?thesis by simp
qed

theorem build_deterministic_witness:
  "generate_data \<lparr>N = 10 ^ 6, SEED = 16045690984503098046, UPDATE_COUNT = 5 * 10 ^ 5,
       REMOVE_COUNT = 750000, REMOVE_HITS = 500000, REMOVE_MISSES = 250000,
       SEARCH_COUNT = 1000000, SEARCH_HIT_RATE = 0.5\<rparr> = generate_data source_config \<and>
   fst (draws next_u64 3 (init 16045690984503098046)) =
     fst (draws next_u64 3 (init 0xDEADBEEFCAFEBABE))"
  using build_deterministic [of "\<lparr>N = 10 ^ 6, SEED = 16045690984503098046,
       UPDATE_COUNT = 5 * 10 ^ 5,
       REMOVE_COUNT = 750000, REMOVE_HITS = 500000, REMOVE_MISSES = 250000,
       SEARCH_COUNT = 1000000, SEARCH_HIT_RATE = 0.5\<rparr>" source_config
       16045690984503098046 "0xDEADBEEFCAFEBABE" 3]
  by (simp add: source_config_def)

end
